theory Spec2Isabelle
  imports Main "HOL-Library.Word"
begin

section \<open>The preview server's push channel (src/core/http-devserver.ts)\<close>

text \<open>
  A shallow embedding of \<^verbatim>\<open>httpDevServer\<close>: the client registry, the two broadcast
  loops (\<^verbatim>\<open>reloadClients\<close> and the handler given to \<^verbatim>\<open>LogEventsHandler.onLog\<close>),
  \<^verbatim>\<open>connect\<close>, \<^verbatim>\<open>injectClient\<close> and \<^verbatim>\<open>devServerClientScript\<close>.

  What the platform and the other modules do is a parameter of the model: whether a
  socket's \<^verbatim>\<open>send\<close> or \<^verbatim>\<open>close\<close> throws, what \<^verbatim>\<open>Deno.upgradeWebSocket\<close> answers,
  what \<^verbatim>\<open>renderEjs\<close> renders. Every call the code makes on a socket and every call of
  \<^verbatim>\<open>maybeDisplaySocketError\<close> is appended to a list of effects, so that theorems can
  speak about what was attempted and in which order.

  One call of a broadcast is modelled without interleaving: nothing else touches the
  registry between the first and the last iteration of its loop.
\<close>

subsection \<open>Strings, bytes, errors\<close>

text \<open>A JavaScript string is a sequence of UTF-16 code units; a byte array holds octets.\<close>

type_synonym jsstring = "16 word list"
type_synonym byte = "8 word"

text \<open>A string literal of the source, read as code units.\<close>

definition lit :: "string \<Rightarrow> jsstring" where
  "lit s = map of_char s"

text \<open>
  What can be thrown: \<^verbatim>\<open>TypeError\<close> (reading \<^verbatim>\<open>.socket\<close> of \<^verbatim>\<open>undefined\<close>),
  \<^verbatim>\<open>RangeError\<close> (a typed array \<^verbatim>\<open>set\<close> that does not fit), and whatever the
  transport throws from \<^verbatim>\<open>send\<close>, \<^verbatim>\<open>close\<close> or the upgrade.
\<close>

datatype js_error = TypeError | RangeError | InvalidStateError | TransportError string

subsection \<open>Sockets, clients, the registry\<close>

text \<open>
  A \<^verbatim>\<open>WebSocket\<close> object. \<open>sock_id\<close> stands for the object's identity. \<open>readyState\<close>
  is 0 (connecting), 1 (open), 2 (closing) or 3 (closed). \<open>CLOSING\<close> and \<open>CLOSED\<close> are
  the properties of those names that the code reads from the socket at line 92; on a
  platform socket they are the constants 2 and 3 of the WebSocket interface.
\<close>

record WebSocket =
  sock_id :: nat
  readyState :: nat
  CLOSING :: nat
  CLOSED :: nat

definition platform_socket :: "nat \<Rightarrow> nat \<Rightarrow> WebSocket" where
  "platform_socket ident state =
     \<lparr>sock_id = ident, readyState = state, CLOSING = 2, CLOSED = 3\<rparr>"

text \<open>\<^verbatim>\<open>!x\<close> on a number is true exactly for 0 (these properties are never NaN).\<close>

definition js_not :: "nat \<Rightarrow> bool" where
  "js_not x = (x = 0)"

record Client =
  path :: jsstring
  socket :: WebSocket

text \<open>
  The effects of the server on its surroundings, in the order they happen:
  a call of \<^verbatim>\<open>socket.send(msg)\<close>, a call of \<^verbatim>\<open>socket.close()\<close>, a call of
  \<^verbatim>\<open>maybeDisplaySocketError(e)\<close>. A \<open>Send\<close> or \<open>Close\<close> is recorded when the call is
  made, whether or not it throws.
\<close>

datatype effect = Send WebSocket jsstring | Close WebSocket | Display js_error

record server =
  clients :: "Client list"
  effects :: "effect list"

text \<open>The transport: what \<^verbatim>\<open>send\<close> and \<^verbatim>\<open>close\<close> throw (\<open>None\<close>: they return).\<close>

record transport =
  send :: "WebSocket \<Rightarrow> jsstring \<Rightarrow> js_error option"
  close :: "WebSocket \<Rightarrow> js_error option"

definition emit :: "effect \<Rightarrow> server \<Rightarrow> server" where
  "emit e st = st\<lparr>effects := effects st @ [e]\<rparr>"

text \<open>
  Modelled from the spec: \<^verbatim>\<open>maybeDisplaySocketError\<close> of \<^verbatim>\<open>./http.ts\<close> is not among
  the sources. The spec calls it the diagnostic side channel: the error is reported
  there and the call returns.
\<close>

definition maybeDisplaySocketError :: "js_error \<Rightarrow> server \<Rightarrow> server" where
  "maybeDisplaySocketError e st = emit (Display e) st"

text \<open>\<^verbatim>\<open>xs.splice(start, deleteCount)\<close> for \<open>start \<ge> 0\<close>, as a new list.\<close>

definition Array_splice :: "nat \<Rightarrow> nat \<Rightarrow> 'a list \<Rightarrow> 'a list" where
  "Array_splice start deleteCount xs = take start xs @ drop (start + deleteCount) xs"

subsection \<open>connect (lines 61-70)\<close>

record Request =
  url :: jsstring
  headers :: "(jsstring \<times> jsstring) list"

text \<open>
  \<open>upgradeWebSocket\<close> is \<^verbatim>\<open>Deno.upgradeWebSocket\<close>: it throws (\<open>Inl\<close>) or returns the
  socket and the response. The result of \<open>connect\<close> is the new server state and what the
  call gives its caller: \<open>Inl e\<close> would be a throw, \<open>Inr None\<close> is a promise resolved
  with \<^verbatim>\<open>undefined\<close>, \<open>Inr (Some r)\<close> one resolved with the response.
\<close>

definition connect ::
  "(Request \<Rightarrow> js_error + WebSocket \<times> 'r) \<Rightarrow> Request \<Rightarrow> server \<Rightarrow>
     server \<times> (js_error + 'r option)" where
  "connect upgradeWebSocket req st =
     (case upgradeWebSocket req of
        Inr (sock, response) \<Rightarrow>
          (st\<lparr>clients := clients st @ [\<lparr>path = url req, socket = sock\<rparr>]\<rparr>,
           Inr (Some response))
      | Inl e \<Rightarrow> (maybeDisplaySocketError e st, Inr None))"

subsection \<open>reloadClients (lines 83-102)\<close>

text \<open>
  One iteration of the loop for the socket at index \<open>i\<close>: the \<^verbatim>\<open>try\<close> (send), the
  \<^verbatim>\<open>catch\<close> (report), the \<^verbatim>\<open>finally\<close> (the guarded close with its own
  \<^verbatim>\<open>try\<close>/\<^verbatim>\<open>catch\<close>, then \<^verbatim>\<open>clients.splice(i, 1)\<close>).
\<close>

definition reload_send :: "transport \<Rightarrow> jsstring \<Rightarrow> WebSocket \<Rightarrow> server \<Rightarrow> server" where
  "reload_send env reloadTarget sock st =
     (let message = lit ''reload'';
          st1 = emit (Send sock (message @ reloadTarget)) st
      in case send env sock (message @ reloadTarget) of
           Some e \<Rightarrow> maybeDisplaySocketError e st1
         | None \<Rightarrow> st1)"

definition reload_close :: "transport \<Rightarrow> WebSocket \<Rightarrow> server \<Rightarrow> server" where
  "reload_close env sock st =
     (if js_not (CLOSED sock) \<and> js_not (CLOSING sock) then
        (let st1 = emit (Close sock) st
         in case close env sock of
              Some e \<Rightarrow> maybeDisplaySocketError e st1
            | None \<Rightarrow> st1)
      else st)"

definition reload_step :: "transport \<Rightarrow> jsstring \<Rightarrow> nat \<Rightarrow> server \<Rightarrow> server" where
  "reload_step env reloadTarget i st =
     (let sock = socket (clients st ! i);
          st1 = reload_send env reloadTarget sock st;
          st2 = reload_close env sock st1
      in st2\<lparr>clients := Array_splice i 1 (clients st2)\<rparr>)"

text \<open>
  The loop \<^verbatim>\<open>for (let i = clients.length - 1; i >= 0; i--)\<close>. Reading
  \<^verbatim>\<open>clients[i].socket\<close> at an index outside the array throws a \<^verbatim>\<open>TypeError\<close>, which
  is outside the \<^verbatim>\<open>try\<close> and rejects the promise.
\<close>

function reloadClients_loop ::
  "transport \<Rightarrow> jsstring \<Rightarrow> int \<Rightarrow> server \<Rightarrow> js_error + server" where
  "reloadClients_loop env reloadTarget i st =
     (if i \<ge> 0 then
        (if nat i < length (clients st)
         then reloadClients_loop env reloadTarget (i - 1) (reload_step env reloadTarget (nat i) st)
         else Inl TypeError)
      else Inr st)"
  by pat_completeness auto
termination
  by (relation "measure (\<lambda>(env, reloadTarget, i, st). nat (i + 1))") auto

text \<open>\<^verbatim>\<open>reloadTarget = ""\<close>: an absent argument is the empty string.\<close>

definition reloadClients :: "transport \<Rightarrow> jsstring option \<Rightarrow> server \<Rightarrow> js_error + server" where
  "reloadClients env reloadTarget st =
     reloadClients_loop env (case reloadTarget of None \<Rightarrow> [] | Some t \<Rightarrow> t)
       (int (length (clients st)) - 1) st"

subsection \<open>The log handler (lines 41-55)\<close>

text \<open>
  \<open>stringify logRecord msg\<close> is
  \<^verbatim>\<open>JSON.stringify({...logRecord, msgFormatted: msg})\<close>; the record type belongs to
  the logging library. The \<^verbatim>\<open>catch\<close> ignores the error: nothing is reported.
\<close>

definition log_step ::
  "transport \<Rightarrow> ('l \<Rightarrow> jsstring \<Rightarrow> jsstring) \<Rightarrow> 'l \<Rightarrow> jsstring \<Rightarrow> nat \<Rightarrow> server \<Rightarrow> server" where
  "log_step env stringify logRecord msg i st =
     (let sock = socket (clients st ! i);
          frame = lit ''log:'' @ stringify logRecord msg;
          st1 = emit (Send sock frame) st
      in case send env sock frame of
           Some e \<Rightarrow> st1
         | None \<Rightarrow> st1)"

function onLog_loop ::
  "transport \<Rightarrow> ('l \<Rightarrow> jsstring \<Rightarrow> jsstring) \<Rightarrow> 'l \<Rightarrow> jsstring \<Rightarrow> int \<Rightarrow> server \<Rightarrow>
     js_error + server" where
  "onLog_loop env stringify logRecord msg i st =
     (if i \<ge> 0 then
        (if nat i < length (clients st)
         then onLog_loop env stringify logRecord msg (i - 1)
                (log_step env stringify logRecord msg (nat i) st)
         else Inl TypeError)
      else Inr st)"
  by pat_completeness auto
termination
  by (relation "measure (\<lambda>(env, stringify, logRecord, msg, i, st). nat (i + 1))") auto

definition onLog ::
  "transport \<Rightarrow> ('l \<Rightarrow> jsstring \<Rightarrow> jsstring) \<Rightarrow> 'l \<Rightarrow> jsstring \<Rightarrow> server \<Rightarrow> js_error + server" where
  "onLog env stringify logRecord msg st =
     onLog_loop env stringify logRecord msg (int (length (clients st)) - 1) st"

subsection \<open>Reading the effects\<close>

fun send_attempts :: "effect list \<Rightarrow> WebSocket list" where
  "send_attempts [] = []"
| "send_attempts (Send s m # es) = s # send_attempts es"
| "send_attempts (e # es) = send_attempts es"

fun sent_frames :: "effect list \<Rightarrow> jsstring list" where
  "sent_frames [] = []"
| "sent_frames (Send s m # es) = m # sent_frames es"
| "sent_frames (e # es) = sent_frames es"

fun close_attempts :: "effect list \<Rightarrow> WebSocket list" where
  "close_attempts [] = []"
| "close_attempts (Close s # es) = s # close_attempts es"
| "close_attempts (e # es) = close_attempts es"

fun displayed :: "effect list \<Rightarrow> js_error list" where
  "displayed [] = []"
| "displayed (Display e # es) = e # displayed es"
| "displayed (e # es) = displayed es"

subsection \<open>The reverse traversal with removal (lines 42-54 and 84-101)\<close>

text \<open>
  Both loops of the source have the same skeleton: the index runs from
  \<^verbatim>\<open>clients.length - 1\<close> down to 0, the client at the index is read, and the entry
  at the current index may be removed with \<^verbatim>\<open>clients.splice(i, 1)\<close>. The log handler
  removes at no index, \<open>reloadClients\<close> at every index. Here the decision is the
  parameter \<open>remove\<close>, and every visit is recorded with its index and the client read.
\<close>

function reverse_traversal ::
  "(nat \<Rightarrow> Client \<Rightarrow> bool) \<Rightarrow> int \<Rightarrow> Client list \<Rightarrow> (nat \<times> Client) list \<Rightarrow>
     js_error + Client list \<times> (nat \<times> Client) list" where
  "reverse_traversal remove i cs visited =
     (if i \<ge> 0 then
        (if nat i < length cs
         then reverse_traversal remove (i - 1)
                (if remove (nat i) (cs ! nat i) then Array_splice (nat i) 1 cs else cs)
                (visited @ [(nat i, cs ! nat i)])
         else Inl TypeError)
      else Inr (cs, visited))"
  by pat_completeness auto
termination
  by (relation "measure (\<lambda>(remove, i, cs, visited). nat (i + 1))") auto

subsection \<open>devServerClientScript (lines 106-136)\<close>

text \<open>
  The modules the function calls are not among the sources and are parameters:
  \<^verbatim>\<open>renderEjs\<close> (template path and parameters to text), \<^verbatim>\<open>resourcePath\<close>,
  the constant \<^verbatim>\<open>kLocalhost\<close> and \<^verbatim>\<open>isRevealjsOutput\<close>. The port is a number that is
  only handed on to the template, so its type is left open.
\<close>

datatype 'n ejs_value = Str jsstring | Num 'n

record ('n, 'p) modules =
  renderEjs :: "jsstring \<Rightarrow> (jsstring \<times> 'n ejs_value) list \<Rightarrow> jsstring"
  resourcePath :: "jsstring \<Rightarrow> jsstring"
  kLocalhost :: jsstring
  isRevealjsOutput :: "'p \<Rightarrow> bool"

record 'p Format =
  pandoc :: 'p

text \<open>\<^verbatim>\<open>xs.join(sep)\<close> on an array of strings.\<close>

fun Array_join :: "jsstring \<Rightarrow> jsstring list \<Rightarrow> jsstring" where
  "Array_join sep [] = []"
| "Array_join sep [x] = x"
| "Array_join sep (x # y # ys) = x @ sep @ Array_join sep (y # ys)"

text \<open>An optional boolean as a condition: \<^verbatim>\<open>undefined\<close> and \<^verbatim>\<open>false\<close> fail it.\<close>

definition js_true :: "bool option \<Rightarrow> bool" where
  "js_true b = (b = Some True)"

text \<open>\<^verbatim>\<open>inputFile || ""\<close>: the empty string for \<^verbatim>\<open>undefined\<close> and for \<^verbatim>\<open>""\<close>.\<close>

definition or_empty :: "jsstring option \<Rightarrow> jsstring" where
  "or_empty inputFile =
     (case inputFile of None \<Rightarrow> [] | Some s \<Rightarrow> if s = [] then [] else s)"

definition core_fragment :: "('n, 'p) modules \<Rightarrow> 'n \<Rightarrow> jsstring" where
  "core_fragment m port =
     renderEjs m (resourcePath m (lit ''editor/devserver/devserver-core.html''))
       [(lit ''localhost'', Str (kLocalhost m)), (lit ''port'', Num port)]"

definition revealjs_fragment :: "('n, 'p) modules \<Rightarrow> jsstring" where
  "revealjs_fragment m =
     renderEjs m (resourcePath m (lit ''editor/devserver/devserver-revealjs.html'')) []"

definition viewer_fragment :: "('n, 'p) modules \<Rightarrow> jsstring option \<Rightarrow> jsstring" where
  "viewer_fragment m inputFile =
     renderEjs m (resourcePath m (lit ''editor/devserver/devserver-viewer.html''))
       [(lit ''inputFile'', Str (or_empty inputFile))]"

text \<open>The array \<^verbatim>\<open>devserver\<close> as it is when the function reaches its \<^verbatim>\<open>return\<close>.\<close>

definition devserver_array ::
  "('n, 'p) modules \<Rightarrow> 'n \<Rightarrow> jsstring option \<Rightarrow> 'p Format option \<Rightarrow> bool option \<Rightarrow>
     jsstring list" where
  "devserver_array m port inputFile format isPresentation =
     (let devserver = [core_fragment m port]
      in if js_true isPresentation \<and>
            (case format of None \<Rightarrow> False | Some f \<Rightarrow> isRevealjsOutput m (pandoc f))
         then (case format of
                 None \<Rightarrow> devserver
               | Some f \<Rightarrow>
                   if isRevealjsOutput m (pandoc f)
                   then devserver @ [revealjs_fragment m]
                   else devserver)
         else devserver @ [viewer_fragment m inputFile])"

definition devServerClientScript ::
  "('n, 'p) modules \<Rightarrow> 'n \<Rightarrow> jsstring option \<Rightarrow> 'p Format option \<Rightarrow> bool option \<Rightarrow>
     jsstring" where
  "devServerClientScript m port inputFile format isPresentation =
     Array_join (lit [CHR 0x0A]) (devserver_array m port inputFile format isPresentation)"

subsection \<open>injectClient (lines 71-81)\<close>

text \<open>
  \<^verbatim>\<open>new TextEncoder().encode(s)\<close> is the UTF-8 encoding of the string's scalar values:
  a surrogate pair is one scalar value, a lone surrogate is replaced by U+FFFD.
\<close>

definition is_lead :: "16 word \<Rightarrow> bool" where
  "is_lead u = (0xD800 \<le> u \<and> u \<le> 0xDBFF)"

definition is_trail :: "16 word \<Rightarrow> bool" where
  "is_trail u = (0xDC00 \<le> u \<and> u \<le> 0xDFFF)"

fun scalar_values :: "jsstring \<Rightarrow> nat list" where
  "scalar_values [] = []"
| "scalar_values [u] = [if is_lead u \<or> is_trail u then 0xFFFD else unat u]"
| "scalar_values (u # v # r) =
     (if is_lead u \<and> is_trail v
      then (0x10000 + (unat u - 0xD800) * 0x400 + (unat v - 0xDC00)) # scalar_values r
      else if is_lead u \<or> is_trail u then 0xFFFD # scalar_values (v # r)
      else unat u # scalar_values (v # r))"

definition utf8 :: "nat \<Rightarrow> byte list" where
  "utf8 c =
     (if c < 0x80 then [of_nat c]
      else if c < 0x800 then [of_nat (0xC0 + c div 0x40), of_nat (0x80 + c mod 0x40)]
      else if c < 0x10000 then
        [of_nat (0xE0 + c div 0x1000), of_nat (0x80 + c div 0x40 mod 0x40),
         of_nat (0x80 + c mod 0x40)]
      else
        [of_nat (0xF0 + c div 0x40000), of_nat (0x80 + c div 0x1000 mod 0x40),
         of_nat (0x80 + c div 0x40 mod 0x40), of_nat (0x80 + c mod 0x40)])"

definition utf8_encode :: "jsstring \<Rightarrow> byte list" where
  "utf8_encode s = concat (map utf8 (scalar_values s))"

text \<open>
  Byte arrays are objects: the heap is the list of the \<^verbatim>\<open>Uint8Array\<close>s allocated so
  far, a reference is a position in it, and an allocation appends. An array passed to
  a function is a reference, so that a write through it would be visible in the heap.
\<close>

type_synonym ref = nat
type_synonym heap = "byte list list"

definition TextEncoder_encode :: "heap \<Rightarrow> jsstring \<Rightarrow> heap \<times> ref" where
  "TextEncoder_encode h s = (h @ [utf8_encode s], length h)"

definition new_Uint8Array :: "heap \<Rightarrow> nat \<Rightarrow> heap \<times> ref" where
  "new_Uint8Array h n = (h @ [replicate n 0], length h)"

text \<open>\<^verbatim>\<open>target.set(source, offset)\<close>; a source that does not fit is a \<^verbatim>\<open>RangeError\<close>.\<close>

definition Uint8Array_set :: "heap \<Rightarrow> ref \<Rightarrow> ref \<Rightarrow> nat \<Rightarrow> js_error + heap" where
  "Uint8Array_set h target source offset =
     (if offset + length (h ! source) > length (h ! target) then Inl RangeError
      else Inr (h[target := take offset (h ! target) @ h ! source @
                              drop (offset + length (h ! source)) (h ! target)]))"

definition injectClient ::
  "('n, 'p) modules \<Rightarrow> 'n \<Rightarrow> bool option \<Rightarrow> heap \<Rightarrow> ref \<Rightarrow> jsstring option \<Rightarrow>
     'p Format option \<Rightarrow> js_error + heap \<times> ref" where
  "injectClient m port isPresentation h file inputFile format =
     (let (h1, scriptContents) =
            TextEncoder_encode h
              (lit [CHR 0x0A] @ devServerClientScript m port inputFile format isPresentation);
          (h2, fileWithScript) =
            new_Uint8Array h1 (length (h1 ! file) + length (h1 ! scriptContents))
      in case Uint8Array_set h2 fileWithScript file 0 of
           Inl e \<Rightarrow> Inl e
         | Inr h3 \<Rightarrow>
             (case Uint8Array_set h3 fileWithScript scriptContents (length (h3 ! file)) of
                Inl e \<Rightarrow> Inl e
              | Inr h4 \<Rightarrow> Inr (h4, fileWithScript)))"

subsection \<open>Concrete inputs\<close>

text \<open>
  Three clients A, B and C with open platform sockets, registered in that order; a
  transport on which every send to B fails; an upgrade that is refused and one that is
  accepted; and stand-ins for the template modules that render a short tag for each
  template (\<open><c>\<close> core, \<open><r>\<close> presentation, \<open><v>\<close> followed by the input file for
  the viewer).
\<close>

definition client_A :: Client where
  "client_A = \<lparr>path = lit ''/a.html'', socket = platform_socket 1 1\<rparr>"

definition client_B :: Client where
  "client_B = \<lparr>path = lit ''/b.html'', socket = platform_socket 2 1\<rparr>"

definition client_C :: Client where
  "client_C = \<lparr>path = lit ''/c.html'', socket = platform_socket 3 1\<rparr>"

definition registry_ABC :: server where
  "registry_ABC = \<lparr>clients = [client_A, client_B, client_C], effects = []\<rparr>"

definition send_to_B_fails :: transport where
  "send_to_B_fails =
     \<lparr>send = (\<lambda>s m. if sock_id s = 2 then Some (TransportError ''broken pipe'') else None),
      close = (\<lambda>s. None)\<rparr>"

definition upgrade_refused :: "Request \<Rightarrow> js_error + WebSocket \<times> nat" where
  "upgrade_refused req = Inl InvalidStateError"

definition upgrade_accepted :: "Request \<Rightarrow> js_error + WebSocket \<times> nat" where
  "upgrade_accepted req = Inr (platform_socket 4 0, 101)"

definition preview_request :: Request where
  "preview_request = \<lparr>url = lit ''/doc.html'', headers = [(lit ''upgrade'', lit ''websocket'')]\<rparr>"

definition example_modules :: "(nat, bool) modules" where
  "example_modules =
     \<lparr>renderEjs = (\<lambda>template params.
        case params of
          [] \<Rightarrow> lit ''<r>''
        | [(k, Str v)] \<Rightarrow> lit ''<v>'' @ v
        | _ \<Rightarrow> lit ''<c>''),
      resourcePath = (\<lambda>name. name),
      kLocalhost = lit ''127.0.0.1'',
      isRevealjsOutput = (\<lambda>to_revealjs. to_revealjs)\<rparr>"

section \<open>Auxiliary facts\<close>

declare reloadClients_loop.simps [simp del]
declare onLog_loop.simps [simp del]
declare reverse_traversal.simps [simp del]

subsection \<open>Reading the effects of a concatenation\<close>

lemma send_attempts_append: "send_attempts (xs @ ys) = send_attempts xs @ send_attempts ys"
  by (induction xs rule: send_attempts.induct) simp_all

lemma sent_frames_append: "sent_frames (xs @ ys) = sent_frames xs @ sent_frames ys"
  by (induction xs rule: sent_frames.induct) simp_all

lemma close_attempts_append: "close_attempts (xs @ ys) = close_attempts xs @ close_attempts ys"
  by (induction xs rule: close_attempts.induct) simp_all

lemma displayed_append: "displayed (xs @ ys) = displayed xs @ displayed ys"
  by (induction xs rule: displayed.induct) simp_all

subsection \<open>One iteration of the reload loop\<close>

lemma clients_reload_send: "clients (reload_send env t s st) = clients st"
  by (simp add: reload_send_def emit_def maybeDisplaySocketError_def Let_def split: option.splits)

lemma clients_reload_close: "clients (reload_close env s st) = clients st"
  by (simp add: reload_close_def emit_def maybeDisplaySocketError_def Let_def split: option.splits)

lemma sends_reload_send:
  "send_attempts (effects (reload_send env t s st)) = send_attempts (effects st) @ [s]"
  by (simp add: reload_send_def emit_def maybeDisplaySocketError_def Let_def send_attempts_append
      split: option.splits)

lemma sends_reload_close:
  "send_attempts (effects (reload_close env s st)) = send_attempts (effects st)"
  by (simp add: reload_close_def emit_def maybeDisplaySocketError_def Let_def send_attempts_append
      split: option.splits)

lemma frames_reload_send:
  "sent_frames (effects (reload_send env t s st)) = sent_frames (effects st) @ [lit ''reload'' @ t]"
  by (simp add: reload_send_def emit_def maybeDisplaySocketError_def Let_def sent_frames_append
      split: option.splits)

lemma frames_reload_close:
  "sent_frames (effects (reload_close env s st)) = sent_frames (effects st)"
  by (simp add: reload_close_def emit_def maybeDisplaySocketError_def Let_def sent_frames_append
      split: option.splits)

lemma closes_reload_send:
  "close_attempts (effects (reload_send env t s st)) = close_attempts (effects st)"
  by (simp add: reload_send_def emit_def maybeDisplaySocketError_def Let_def close_attempts_append
      split: option.splits)

lemma closes_reload_close:
  "close_attempts (effects (reload_close env s st)) =
     close_attempts (effects st) @ (if js_not (CLOSED s) \<and> js_not (CLOSING s) then [s] else [])"
  by (simp add: reload_close_def emit_def maybeDisplaySocketError_def Let_def close_attempts_append
      split: option.splits)

text \<open>
  When the index is the last one, the step reads the last client, sends to its socket,
  closes it if the guard lets it, and leaves the clients before it.
\<close>

lemma reload_step_last:
  assumes "clients st = xs @ [c]"
  shows "clients (reload_step env t (length xs) st) = xs"
    and "send_attempts (effects (reload_step env t (length xs) st)) =
           send_attempts (effects st) @ [socket c]"
    and "sent_frames (effects (reload_step env t (length xs) st)) =
           sent_frames (effects st) @ [lit ''reload'' @ t]"
    and "close_attempts (effects (reload_step env t (length xs) st)) =
           close_attempts (effects st) @
             (if js_not (CLOSED (socket c)) \<and> js_not (CLOSING (socket c)) then [socket c] else [])"
  using assms
  by (simp_all add: reload_step_def Let_def clients_reload_send clients_reload_close
      Array_splice_def sends_reload_send sends_reload_close frames_reload_send
      frames_reload_close closes_reload_send closes_reload_close)

subsection \<open>The reload loop from the last index\<close>

text \<open>
  Started at \<open>length cs - 1\<close> on the registry \<open>cs\<close>, the loop never reads outside the
  array: it returns, the registry is empty, and the sockets were sent to from the last
  registered to the first. By induction on the registry from its end.
\<close>

lemma reloadClients_loop_all:
  "clients st = cs \<Longrightarrow>
   \<exists>st'. reloadClients_loop env t (int (length cs) - 1) st = Inr st' \<and>
         clients st' = [] \<and>
         send_attempts (effects st') = send_attempts (effects st) @ rev (map socket cs) \<and>
         sent_frames (effects st') =
           sent_frames (effects st) @ replicate (length cs) (lit ''reload'' @ t) \<and>
         close_attempts (effects st') =
           close_attempts (effects st) @
             filter (\<lambda>s. js_not (CLOSED s) \<and> js_not (CLOSING s)) (rev (map socket cs))"
proof (induction cs arbitrary: st rule: rev_induct)
  case Nil
  then show ?case
    by (simp add: reloadClients_loop.simps)
next
  case (snoc c xs)
  let ?st1 = "reload_step env t (length xs) st"
  have unfold: "reloadClients_loop env t (int (length (xs @ [c])) - 1) st =
                reloadClients_loop env t (int (length xs) - 1) ?st1"
    using snoc.prems by (subst reloadClients_loop.simps) simp
  from snoc.IH [OF reload_step_last(1) [OF snoc.prems]]
  obtain st' where st': "reloadClients_loop env t (int (length xs) - 1) ?st1 = Inr st'"
    "clients st' = []"
    "send_attempts (effects st') = send_attempts (effects ?st1) @ rev (map socket xs)"
    "sent_frames (effects st') =
       sent_frames (effects ?st1) @ replicate (length xs) (lit ''reload'' @ t)"
    "close_attempts (effects st') =
       close_attempts (effects ?st1) @
         filter (\<lambda>s. js_not (CLOSED s) \<and> js_not (CLOSING s)) (rev (map socket xs))"
    by blast
  show ?case
    unfolding unfold
    using st' reload_step_last(2-4) [OF snoc.prems, of env t]
    by (simp add: replicate_append_same)
qed

subsection \<open>The log loop\<close>

lemma log_step_effects:
  "log_step env stringify r msg i st =
     st\<lparr>effects := effects st @ [Send (socket (clients st ! i)) (lit ''log:'' @ stringify r msg)]\<rparr>"
  by (simp add: log_step_def emit_def Let_def split: option.splits)

text \<open>By induction on the number of indices still to visit; the registry never changes.\<close>

lemma onLog_loop_all:
  "k \<le> length (clients st) \<Longrightarrow>
   \<exists>st'. onLog_loop env stringify r msg (int k - 1) st = Inr st' \<and>
         clients st' = clients st \<and>
         send_attempts (effects st') =
           send_attempts (effects st) @ rev (map socket (take k (clients st))) \<and>
         sent_frames (effects st') =
           sent_frames (effects st) @ replicate k (lit ''log:'' @ stringify r msg) \<and>
         close_attempts (effects st') = close_attempts (effects st) \<and>
         displayed (effects st') = displayed (effects st)"
proof (induction k arbitrary: st)
  case 0
  then show ?case
    by (simp add: onLog_loop.simps)
next
  case (Suc k)
  let ?st1 = "log_step env stringify r msg k st"
  have lt: "k < length (clients st)"
    using Suc.prems by simp
  have unfold: "onLog_loop env stringify r msg (int (Suc k) - 1) st =
                onLog_loop env stringify r msg (int k - 1) ?st1"
    using lt by (subst onLog_loop.simps) simp
  have same: "clients ?st1 = clients st"
    by (simp add: log_step_effects)
  have "k \<le> length (clients ?st1)"
    using lt same by simp
  from Suc.IH [OF this] obtain st' where
    st': "onLog_loop env stringify r msg (int k - 1) ?st1 = Inr st'"
      "clients st' = clients ?st1"
      "send_attempts (effects st') =
         send_attempts (effects ?st1) @ rev (map socket (take k (clients ?st1)))"
      "sent_frames (effects st') =
         sent_frames (effects ?st1) @ replicate k (lit ''log:'' @ stringify r msg)"
      "close_attempts (effects st') = close_attempts (effects ?st1)"
      "displayed (effects st') = displayed (effects ?st1)"
    by blast
  show ?case
    unfolding unfold
    using st' lt
    by (simp add: log_step_effects send_attempts_append sent_frames_append
        close_attempts_append displayed_append take_Suc_conv_app_nth replicate_append_same)
qed

subsection \<open>The traversal\<close>

text \<open>
  With \<open>k\<close> indices still to visit, the traversal visits the first \<open>k\<close> clients from
  the last to the first, each at its own index, and keeps the clients from \<open>k\<close> on as
  they are: a removal at the current index moves only entries above the indices still
  to come.
\<close>

lemma reverse_traversal_prefix:
  "k \<le> length cs \<Longrightarrow>
   reverse_traversal remove (int k - 1) cs visited =
     Inr (map snd (filter (\<lambda>(i, c). \<not> remove i c) (enumerate 0 (take k cs))) @ drop k cs,
          visited @ rev (enumerate 0 (take k cs)))"
proof (induction k arbitrary: cs visited)
  case 0
  then show ?case
    by (simp add: reverse_traversal.simps)
next
  case (Suc k)
  let ?cs1 = "if remove k (cs ! k) then Array_splice k 1 cs else cs"
  have lt: "k < length cs"
    using Suc.prems by simp
  have unfold: "reverse_traversal remove (int (Suc k) - 1) cs visited =
                reverse_traversal remove (int k - 1) ?cs1 (visited @ [(k, cs ! k)])"
    using lt by (subst reverse_traversal.simps) simp
  have le: "k \<le> length ?cs1"
    using lt by (auto simp: Array_splice_def)
  have tk: "take k ?cs1 = take k cs"
    using lt by (simp add: Array_splice_def)
  have dr: "drop k ?cs1 = (if remove k (cs ! k) then drop (Suc k) cs else cs ! k # drop (Suc k) cs)"
    using lt by (simp add: Array_splice_def Cons_nth_drop_Suc)
  have en: "enumerate 0 (take (Suc k) cs) = enumerate 0 (take k cs) @ [(k, cs ! k)]"
    using lt by (simp add: take_Suc_conv_app_nth enumerate_append_eq)
  show ?case
    unfolding unfold Suc.IH [OF le] tk dr en
    by simp
qed

lemma map_snd_enumerate_comp: "map (f \<circ> snd) (enumerate n xs) = map f xs"
  by (metis map_map map_snd_enumerate)

text \<open>
  The two loops of the source are the traversal that removes everywhere and the one
  that removes nowhere: same registry at the end, same sockets in the same order.
\<close>

lemma reloadClients_is_reverse_traversal:
  "\<exists>st' visited.
     reloadClients env reloadTarget st = Inr st' \<and>
     reverse_traversal (\<lambda>i c. True) (int (length (clients st)) - 1) (clients st) [] =
       Inr (clients st', visited) \<and>
     send_attempts (effects st') = send_attempts (effects st) @ map (socket \<circ> snd) visited \<and>
     visited = rev (enumerate 0 (clients st))"
proof -
  obtain st' where
    "reloadClients env reloadTarget st = Inr st'" "clients st' = []"
    "send_attempts (effects st') = send_attempts (effects st) @ rev (map socket (clients st))"
    using reloadClients_loop_all [OF refl, where st = st and env = env]
    unfolding reloadClients_def by blast
  then show ?thesis
    by (simp add: reverse_traversal_prefix [OF order_refl] rev_map [symmetric]
        map_snd_enumerate_comp)
qed

lemma onLog_is_reverse_traversal:
  "\<exists>st' visited.
     onLog env stringify logRecord msg st = Inr st' \<and>
     reverse_traversal (\<lambda>i c. False) (int (length (clients st)) - 1) (clients st) [] =
       Inr (clients st', visited) \<and>
     send_attempts (effects st') = send_attempts (effects st) @ map (socket \<circ> snd) visited \<and>
     visited = rev (enumerate 0 (clients st))"
proof -
  obtain st' where
    "onLog env stringify logRecord msg st = Inr st'" "clients st' = clients st"
    "send_attempts (effects st') = send_attempts (effects st) @ rev (map socket (clients st))"
    using onLog_loop_all [OF order_refl, where st = st and env = env
        and stringify = stringify and r = logRecord and msg = msg]
    unfolding onLog_def by auto
  then show ?thesis
    by (simp add: reverse_traversal_prefix [OF order_refl] rev_map [symmetric]
        map_snd_enumerate_comp)
qed

subsection \<open>The encoder and the script\<close>

lemma scalar_values_newline: "scalar_values (0x0A # s) = 0x0A # scalar_values s"
  by (cases s) (simp_all add: is_lead_def is_trail_def)

lemma utf8_encode_newline: "utf8_encode (lit [CHR 0x0A] @ s) = 0x0A # utf8_encode s"
  by (simp add: utf8_encode_def lit_def scalar_values_newline utf8_def)

lemma devserver_array_cases:
  "devserver_array m port inputFile format isPresentation =
     [core_fragment m port,
      if isPresentation = Some True \<and>
         (case format of None \<Rightarrow> False | Some f \<Rightarrow> isRevealjsOutput m (pandoc f))
      then revealjs_fragment m else viewer_fragment m inputFile]"
  by (cases format) (auto simp: devserver_array_def js_true_def Let_def)

text \<open>
  The heap after \<open>injectClient\<close>: the old arrays, then the encoded script, then the
  new array, which is what the function returns.
\<close>

lemma injectClient_result:
  assumes "file < length h"
  shows "injectClient m port isPresentation h file inputFile format =
           Inr (h @ [utf8_encode (lit [CHR 0x0A] @
                       devServerClientScript m port inputFile format isPresentation),
                     h ! file @
                     utf8_encode (lit [CHR 0x0A] @
                       devServerClientScript m port inputFile format isPresentation)],
                Suc (length h))"
proof -
  let ?enc = "utf8_encode (lit [CHR 0x0A] @
                devServerClientScript m port inputFile format isPresentation)"
  let ?h2 = "h @ [?enc, replicate (length (h ! file) + length ?enc) 0]"
  have first: "Uint8Array_set ?h2 (Suc (length h)) file 0 =
                 Inr (h @ [?enc, h ! file @ replicate (length ?enc) 0])"
    using assms by (simp add: Uint8Array_set_def nth_append list_update_append)
  have second: "Uint8Array_set (h @ [?enc, h ! file @ replicate (length ?enc) 0])
                  (Suc (length h)) (length h) (length (h ! file)) =
                 Inr (h @ [?enc, h ! file @ ?enc])"
    by (simp add: Uint8Array_set_def nth_append list_update_append)
  show ?thesis
    using assms first second
    by (simp add: injectClient_def TextEncoder_encode_def new_Uint8Array_def nth_append)
qed

section \<open>The claims\<close>

subsection \<open>Reload broadcast\<close>

text \<open>
  Claim C1 says that a reload broadcast attempts to close every client's connection
  that is not already closed or closing, N close attempts for N clients. The guard at
  line 92 reads \<^verbatim>\<open>socket.CLOSED\<close> and \<^verbatim>\<open>socket.CLOSING\<close>, which on a platform socket
  are the constants 3 and 2 and not the socket's state: both negations are false, and
  \<^verbatim>\<open>socket.close()\<close> is never called. On the registry A, B, C of open sockets, with
  \<^verbatim>\<open>reloadClients("/x")\<close> and the send to B failing, the effects are three sends and
  one report, and no close.
\<close>

theorem reloadClients_scenario_without_close:
  "reloadClients send_to_B_fails (Some (lit ''/x'')) registry_ABC =
     Inr \<lparr>clients = [],
          effects = [Send (socket client_C) (lit ''reload/x''),
                     Send (socket client_B) (lit ''reload/x''),
                     Display (TransportError ''broken pipe''),
                     Send (socket client_A) (lit ''reload/x'')]\<rparr> \<and>
   close_attempts
     [Send (socket client_C) (lit ''reload/x''),
      Send (socket client_B) (lit ''reload/x''),
      Display (TransportError ''broken pipe''),
      Send (socket client_A) (lit ''reload/x'')] = []"
  by (simp add: client_A_def client_B_def client_C_def registry_ABC_def send_to_B_fails_def
      reloadClients_def reloadClients_loop.simps reload_step_def reload_send_def
      reload_close_def emit_def maybeDisplaySocketError_def Array_splice_def
      platform_socket_def js_not_def lit_def Let_def)

text \<open>
  The same for every registry of platform sockets, whatever their state and whatever
  the transport does: a reload broadcast adds no close attempt.
\<close>

lemma reloadClients_platform_sockets_never_closed:
  assumes "list_all (\<lambda>c. CLOSED (socket c) = 3 \<and> CLOSING (socket c) = 2) (clients st)"
  shows "\<exists>st'. reloadClients env reloadTarget st = Inr st' \<and>
               close_attempts (effects st') = close_attempts (effects st)"
proof -
  have "filter (\<lambda>s. js_not (CLOSED s) \<and> js_not (CLOSING s)) (rev (map socket (clients st))) = []"
    using assms by (auto simp: js_not_def list_all_iff filter_empty_conv)
  then show ?thesis
    using reloadClients_loop_all [OF refl, where st = st and env = env]
    unfolding reloadClients_def by fastforce
qed

text \<open>
  Claim C2: for every registry and every behaviour of the transport (any sends and
  closes may throw), \<open>reloadClients\<close> returns and the registry it leaves is empty; the
  removals are made by the call itself.
\<close>

theorem reloadClients_empties_registry:
  "\<exists>st'. reloadClients env reloadTarget st = Inr st' \<and> clients st' = []"
  using reloadClients_loop_all [OF refl, where st = st and env = env]
  unfolding reloadClients_def by blast

theorem reloadClients_empties_registry_witness:
  "\<exists>st'. reloadClients send_to_B_fails None registry_ABC = Inr st' \<and> clients st' = []"
  using reloadClients_empties_registry [of send_to_B_fails None registry_ABC]
  by simp

text \<open>
  Claim C8: every frame a reload broadcast sends is the string \<^verbatim>\<open>reload\<close> followed
  directly by the target, and by nothing when the target is absent; one frame per
  registered client.
\<close>

theorem reloadClients_frame_is_reload_target:
  "\<exists>st'. reloadClients env reloadTarget st = Inr st' \<and>
         sent_frames (effects st') =
           sent_frames (effects st) @
             replicate (length (clients st))
               (lit ''reload'' @ (case reloadTarget of None \<Rightarrow> [] | Some t \<Rightarrow> t))"
  using reloadClients_loop_all [OF refl, where st = st and env = env]
  unfolding reloadClients_def by blast

text \<open>\<^verbatim>\<open>reloadClients("/x")\<close> sends \<^verbatim>\<open>reload/x\<close> to A, B and C; without a target, \<^verbatim>\<open>reload\<close>.\<close>

theorem reloadClients_frame_is_reload_target_witness:
  "(\<exists>st'. reloadClients send_to_B_fails (Some (lit ''/x'')) registry_ABC = Inr st' \<and>
          sent_frames (effects st') = [lit ''reload/x'', lit ''reload/x'', lit ''reload/x'']) \<and>
   (\<exists>st'. reloadClients send_to_B_fails None registry_ABC = Inr st' \<and>
          sent_frames (effects st') = [lit ''reload'', lit ''reload'', lit ''reload''])"
proof -
  have reg: "sent_frames (effects registry_ABC) = []" "length (clients registry_ABC) = 3"
    by (simp_all add: registry_ABC_def)
  have three: "replicate 3 x = [x, x, x]" for x :: jsstring
    by (simp add: numeral_3_eq_3)
  show ?thesis
    using reloadClients_frame_is_reload_target
            [of send_to_B_fails "Some (lit ''/x'')" registry_ABC]
          reloadClients_frame_is_reload_target [of send_to_B_fails None registry_ABC]
    unfolding reg three
    by (simp add: lit_def)
qed

subsection \<open>Failure isolation\<close>

text \<open>
  Claim C3: in a reload broadcast and in a log broadcast, the sockets that get a send
  attempt are exactly the sockets of the clients registered at the start, from the
  last registered to the first, whichever of the sends throw: a failed send does not
  end the pass. (The log frame is
  \<^verbatim>\<open>"log:" + JSON.stringify({...logRecord, msgFormatted: msg})\<close>; serialising a log
  record's own fields and a string returns.)
\<close>

theorem send_failure_does_not_abort_broadcast:
  "(\<exists>st'. reloadClients env reloadTarget st = Inr st' \<and>
          send_attempts (effects st') =
            send_attempts (effects st) @ rev (map socket (clients st))) \<and>
   (\<exists>st'. onLog env stringify logRecord msg st = Inr st' \<and>
          send_attempts (effects st') =
            send_attempts (effects st) @ rev (map socket (clients st)))"
proof
  show "\<exists>st'. reloadClients env reloadTarget st = Inr st' \<and>
          send_attempts (effects st') =
            send_attempts (effects st) @ rev (map socket (clients st))"
    using reloadClients_loop_all [OF refl, where st = st and env = env]
    unfolding reloadClients_def by blast
  show "\<exists>st'. onLog env stringify logRecord msg st = Inr st' \<and>
          send_attempts (effects st') =
            send_attempts (effects st) @ rev (map socket (clients st))"
    using onLog_loop_all [OF order_refl, where st = st and env = env
        and stringify = stringify and r = logRecord and msg = msg]
    unfolding onLog_def by auto
qed

text \<open>With the send to B failing, C, B and A all get their send attempt, in that order.\<close>

theorem send_failure_does_not_abort_broadcast_witness:
  "(\<exists>st'. reloadClients send_to_B_fails None registry_ABC = Inr st' \<and>
          send_attempts (effects st') = [socket client_C, socket client_B, socket client_A]) \<and>
   (\<exists>st'. onLog send_to_B_fails (\<lambda>(r :: unit) m. m) () (lit ''rendering'') registry_ABC =
            Inr st' \<and>
          send_attempts (effects st') = [socket client_C, socket client_B, socket client_A])"
proof -
  have reg: "send_attempts (effects registry_ABC) = []"
    "rev (map socket (clients registry_ABC)) = [socket client_C, socket client_B, socket client_A]"
    by (simp_all add: registry_ABC_def)
  show ?thesis
    using send_failure_does_not_abort_broadcast
            [of send_to_B_fails None registry_ABC "\<lambda>(r :: unit) m. m" "()" "lit ''rendering''"]
    unfolding reg
    by simp
qed

text \<open>
  Claim C4: a log broadcast to N clients, with any of the sends failing, returns with
  the registry as it was, so with exactly N clients, and makes no close attempt.
\<close>

theorem log_broadcast_keeps_every_client:
  "\<exists>st'. onLog env stringify logRecord msg st = Inr st' \<and>
         clients st' = clients st \<and>
         length (clients st') = length (clients st) \<and>
         close_attempts (effects st') = close_attempts (effects st)"
  using onLog_loop_all [OF order_refl, where st = st and env = env
      and stringify = stringify and r = logRecord and msg = msg]
  unfolding onLog_def by auto

theorem log_broadcast_keeps_every_client_witness:
  "\<exists>st'. onLog send_to_B_fails (\<lambda>(r :: unit) m. m) () (lit ''rendering'') registry_ABC =
           Inr st' \<and>
         clients st' = [client_A, client_B, client_C] \<and>
         length (clients st') = 3 \<and>
         close_attempts (effects st') = []"
proof -
  have reg: "clients registry_ABC = [client_A, client_B, client_C]"
    "close_attempts (effects registry_ABC) = []"
    by (simp_all add: registry_ABC_def)
  show ?thesis
    using log_broadcast_keeps_every_client
            [of send_to_B_fails "\<lambda>(r :: unit) m. m" "()" "lit ''rendering''" registry_ABC]
    unfolding reg
    by auto
qed

subsection \<open>The traversal order\<close>

text \<open>
  Claim C5: the broadcast traversal of the source, from the last index to the first
  with the entry at the current index removed or not, visits every client of the
  initial registry exactly once. Three parts. First, for every registry and every
  choice \<open>remove\<close> of the indices at which the entry is removed, the traversal returns,
  the visited indices are \<open>length cs - 1\<close> down to 0, each once, the client read at an
  index is the one the initial registry has there, and what is left are the clients
  that were not removed. Second, \<open>reloadClients\<close> is this traversal with a removal at
  every index: it returns, it leaves the registry that traversal leaves, and the
  sockets it sends to are those of the visited clients, in the order of the visits.
  Third, the log handler is this traversal with no removal, in the same sense.
\<close>

theorem reverse_traversal_visits_each_client_once:
  "(\<exists>rest visited.
      reverse_traversal remove (int (length cs) - 1) cs [] = Inr (rest, visited) \<and>
      map fst visited = rev [0..<length cs] \<and>
      map snd visited = rev cs \<and>
      visited = rev (enumerate 0 cs) \<and>
      rest = map snd (filter (\<lambda>(i, c). \<not> remove i c) (enumerate 0 cs))) \<and>
   (\<exists>st' visited.
      reloadClients env reloadTarget st = Inr st' \<and>
      reverse_traversal (\<lambda>i c. True) (int (length (clients st)) - 1) (clients st) [] =
        Inr (clients st', visited) \<and>
      send_attempts (effects st') = send_attempts (effects st) @ map (socket \<circ> snd) visited \<and>
      visited = rev (enumerate 0 (clients st))) \<and>
   (\<exists>st' visited.
      onLog env stringify logRecord msg st = Inr st' \<and>
      reverse_traversal (\<lambda>i c. False) (int (length (clients st)) - 1) (clients st) [] =
        Inr (clients st', visited) \<and>
      send_attempts (effects st') = send_attempts (effects st) @ map (socket \<circ> snd) visited \<and>
      visited = rev (enumerate 0 (clients st)))"
proof (intro conjI)
  show "\<exists>rest visited.
      reverse_traversal remove (int (length cs) - 1) cs [] = Inr (rest, visited) \<and>
      map fst visited = rev [0..<length cs] \<and>
      map snd visited = rev cs \<and>
      visited = rev (enumerate 0 cs) \<and>
      rest = map snd (filter (\<lambda>(i, c). \<not> remove i c) (enumerate 0 cs))"
    by (simp add: reverse_traversal_prefix [OF order_refl] rev_map [symmetric])
  show "\<exists>st' visited.
      reloadClients env reloadTarget st = Inr st' \<and>
      reverse_traversal (\<lambda>i c. True) (int (length (clients st)) - 1) (clients st) [] =
        Inr (clients st', visited) \<and>
      send_attempts (effects st') = send_attempts (effects st) @ map (socket \<circ> snd) visited \<and>
      visited = rev (enumerate 0 (clients st))"
    by (rule reloadClients_is_reverse_traversal)
  show "\<exists>st' visited.
      onLog env stringify logRecord msg st = Inr st' \<and>
      reverse_traversal (\<lambda>i c. False) (int (length (clients st)) - 1) (clients st) [] =
        Inr (clients st', visited) \<and>
      send_attempts (effects st') = send_attempts (effects st) @ map (socket \<circ> snd) visited \<and>
      visited = rev (enumerate 0 (clients st))"
    by (rule onLog_is_reverse_traversal)
qed

text \<open>
  On the registry A, B, C with the send to B failing: a traversal that removes only at
  index 1 visits C, B, A and leaves A and C; \<open>reloadClients\<close> sends to C, B, A and
  leaves nothing; the log handler sends to C, B, A and leaves A, B, C.
\<close>

theorem reverse_traversal_visits_each_client_once_witness:
  "reverse_traversal (\<lambda>i c. i = 1) 2 [client_A, client_B, client_C] [] =
     Inr ([client_A, client_C], [(2, client_C), (1, client_B), (0, client_A)]) \<and>
   (\<exists>st'. reloadClients send_to_B_fails None registry_ABC = Inr st' \<and>
          reverse_traversal (\<lambda>i c. True) 2 [client_A, client_B, client_C] [] =
            Inr (clients st', [(2, client_C), (1, client_B), (0, client_A)]) \<and>
          clients st' = [] \<and>
          send_attempts (effects st') = [socket client_C, socket client_B, socket client_A]) \<and>
   (\<exists>st'. onLog send_to_B_fails (\<lambda>(r :: unit) m. m) () (lit ''rendering'') registry_ABC =
            Inr st' \<and>
          reverse_traversal (\<lambda>i c. False) 2 [client_A, client_B, client_C] [] =
            Inr (clients st', [(2, client_C), (1, client_B), (0, client_A)]) \<and>
          clients st' = [client_A, client_B, client_C] \<and>
          send_attempts (effects st') = [socket client_C, socket client_B, socket client_A])"
proof -
  note inst = reverse_traversal_visits_each_client_once
    [where remove = "\<lambda>i c. i = 1" and cs = "[client_A, client_B, client_C]"
       and env = send_to_B_fails and reloadTarget = None and st = registry_ABC
       and stringify = "\<lambda>(r :: unit) m. m" and logRecord = "()"
       and msg = "lit ''rendering''"]
  have reg: "clients registry_ABC = [client_A, client_B, client_C]"
    "send_attempts (effects registry_ABC) = []"
    by (simp_all add: registry_ABC_def)
  have all_removed: "reverse_traversal (\<lambda>i c. True) 2 [client_A, client_B, client_C] [] =
      Inr ([], [(2, client_C), (1, client_B), (0, client_A)])"
    using reverse_traversal_prefix [OF order_refl, of "\<lambda>i c. True"
        "[client_A, client_B, client_C]" "[]"]
    by simp
  have none_removed: "reverse_traversal (\<lambda>i c. False) 2 [client_A, client_B, client_C] [] =
      Inr ([client_A, client_B, client_C], [(2, client_C), (1, client_B), (0, client_A)])"
    using reverse_traversal_prefix [OF order_refl, of "\<lambda>i c. False"
        "[client_A, client_B, client_C]" "[]"]
    by simp
  have first: "reverse_traversal (\<lambda>i c. i = 1) 2 [client_A, client_B, client_C] [] =
     Inr ([client_A, client_C], [(2, client_C), (1, client_B), (0, client_A)])"
    using inst [THEN conjunct1] by simp
  have second: "\<exists>st'. reloadClients send_to_B_fails None registry_ABC = Inr st' \<and>
          reverse_traversal (\<lambda>i c. True) 2 [client_A, client_B, client_C] [] =
            Inr (clients st', [(2, client_C), (1, client_B), (0, client_A)]) \<and>
          clients st' = [] \<and>
          send_attempts (effects st') = [socket client_C, socket client_B, socket client_A]"
    using inst [THEN conjunct2, THEN conjunct1]
    unfolding reg by (auto simp: all_removed)
  have third: "\<exists>st'. onLog send_to_B_fails (\<lambda>(r :: unit) m. m) () (lit ''rendering'')
            registry_ABC = Inr st' \<and>
          reverse_traversal (\<lambda>i c. False) 2 [client_A, client_B, client_C] [] =
            Inr (clients st', [(2, client_C), (1, client_B), (0, client_A)]) \<and>
          clients st' = [client_A, client_B, client_C] \<and>
          send_attempts (effects st') = [socket client_C, socket client_B, socket client_A]"
    using inst [THEN conjunct2, THEN conjunct2]
    unfolding reg by (auto simp: none_removed)
  from first second third show ?thesis
    by blast
qed

subsection \<open>The injected script\<close>

text \<open>
  Claim C6: for every byte array, \<open>injectClient\<close> returns a newly allocated array whose
  length is the input's length plus the length of the encoded script plus 1, which
  starts with the input's bytes, followed by one newline byte and the encoded script;
  the input array and every other array of the heap are as they were.
\<close>

theorem injectClient_appends_script:
  assumes "file < length h"
  shows "\<exists>h' out.
     injectClient m port isPresentation h file inputFile format = Inr (h', out) \<and>
     length (h' ! out) =
       length (h ! file) +
       length (utf8_encode (devServerClientScript m port inputFile format isPresentation)) + 1 \<and>
     take (length (h ! file)) (h' ! out) = h ! file \<and>
     h' ! out =
       h ! file @ [0x0A] @
       utf8_encode (devServerClientScript m port inputFile format isPresentation) \<and>
     length h \<le> out \<and> out \<noteq> file \<and>
     take (length h) h' = h \<and> h' ! file = h ! file"
  using assms
  by (simp add: injectClient_result utf8_encode_newline nth_append)

text \<open>
  The empty array with the input file \<^verbatim>\<open>input.qmd\<close>, no format, not a presentation:
  the script has 16 bytes, the result 17.
\<close>

theorem injectClient_appends_script_witness:
  "(0::nat) < length [[] :: byte list] \<and>
   (\<exists>h' out.
      injectClient example_modules 4200 (Some False) [[]] 0 (Some (lit ''input.qmd'')) None =
        Inr (h', out) \<and>
      length (h' ! out) = 17 \<and> take 0 (h' ! out) = [] \<and> out \<noteq> 0 \<and> h' ! 0 = [])"
proof -
  let ?script = "devServerClientScript example_modules 4200 (Some (lit ''input.qmd'')) None
                   (Some False)"
  have h: "(0::nat) < length [[] :: byte list]"
    by simp
  from injectClient_appends_script
    [OF h, of example_modules 4200 "Some False" "Some (lit ''input.qmd'')" None]
  obtain h' out where r:
    "injectClient example_modules 4200 (Some False) [[]] 0 (Some (lit ''input.qmd'')) None =
       Inr (h', out)"
    "length (h' ! out) = length ([[] :: byte list] ! 0) + length (utf8_encode ?script) + 1"
    "out \<noteq> 0" "h' ! 0 = [[] :: byte list] ! 0"
    by blast
  have script: "?script = lit ''<c>'' @ lit [CHR 0x0A] @ lit ''<v>input.qmd''"
    by (simp add: devServerClientScript_def devserver_array_cases core_fragment_def
        viewer_fragment_def or_empty_def example_modules_def lit_def)
  have "length (utf8_encode ?script) = 16"
    unfolding script
    by (simp add: lit_def utf8_encode_def utf8_def is_lead_def is_trail_def)
  with h r show ?thesis
    by simp
qed



subsection \<open>The handshake\<close>

text \<open>
  Claim C9: when the upgrade throws, \<open>connect\<close> does not throw: its promise is resolved
  with \<^verbatim>\<open>undefined\<close>, and the only effect is the report of the error to
  \<open>maybeDisplaySocketError\<close>.
\<close>

theorem connect_failed_upgrade_resolves_undefined:
  assumes "upgradeWebSocket req = Inl e"
  shows "snd (connect upgradeWebSocket req st) = Inr None \<and>
         effects (fst (connect upgradeWebSocket req st)) = effects st @ [Display e]"
  using assms
  by (simp add: connect_def maybeDisplaySocketError_def emit_def)

theorem connect_failed_upgrade_resolves_undefined_witness:
  "upgrade_refused preview_request = Inl InvalidStateError \<and>
   snd (connect upgrade_refused preview_request registry_ABC) = Inr None \<and>
   effects (fst (connect upgrade_refused preview_request registry_ABC)) =
     [Display InvalidStateError]"
proof -
  have h: "upgrade_refused preview_request = Inl InvalidStateError"
    by (simp add: upgrade_refused_def)
  have "effects registry_ABC = []"
    by (simp add: registry_ABC_def)
  with h connect_failed_upgrade_resolves_undefined
           [of upgrade_refused preview_request InvalidStateError registry_ABC, OF h]
  show ?thesis
    by simp
qed

text \<open>
  Claim C10: when the upgrade throws, the registry after \<open>connect\<close> is the registry
  before it. A client is registered exactly when \<open>connect\<close> gives a response: the
  registry has one entry more at its end if and only if the result is a response, and
  it is unchanged if and only if the result is \<^verbatim>\<open>undefined\<close>.
\<close>

theorem connect_registers_iff_response:
  "(\<forall>e. upgradeWebSocket req = Inl e \<longrightarrow>
      clients (fst (connect upgradeWebSocket req st)) = clients st) \<and>
   ((\<exists>r. snd (connect upgradeWebSocket req st) = Inr (Some r)) \<longleftrightarrow>
      (\<exists>c. clients (fst (connect upgradeWebSocket req st)) = clients st @ [c])) \<and>
   (snd (connect upgradeWebSocket req st) = Inr None \<longleftrightarrow>
      clients (fst (connect upgradeWebSocket req st)) = clients st)"
  by (cases "upgradeWebSocket req")
     (auto simp: connect_def maybeDisplaySocketError_def emit_def)

theorem connect_registers_iff_response_witness:
  "upgrade_refused preview_request = Inl InvalidStateError \<and>
   clients (fst (connect upgrade_refused preview_request registry_ABC)) =
     [client_A, client_B, client_C] \<and>
   snd (connect upgrade_accepted preview_request registry_ABC) = Inr (Some 101) \<and>
   (\<exists>c. clients (fst (connect upgrade_accepted preview_request registry_ABC)) =
          [client_A, client_B, client_C] @ [c])"
proof -
  have h: "upgrade_refused preview_request = Inl InvalidStateError"
    by (simp add: upgrade_refused_def)
  have reg: "clients registry_ABC = [client_A, client_B, client_C]"
    by (simp add: registry_ABC_def)
  have ok: "snd (connect upgrade_accepted preview_request registry_ABC) = Inr (Some 101)"
    by (simp add: connect_def upgrade_accepted_def)
  from connect_registers_iff_response [of upgrade_refused preview_request registry_ABC] h
  have "clients (fst (connect upgrade_refused preview_request registry_ABC)) =
          clients registry_ABC"
    by blast
  moreover
  from connect_registers_iff_response [of upgrade_accepted preview_request registry_ABC] ok
  have "\<exists>c. clients (fst (connect upgrade_accepted preview_request registry_ABC)) =
          clients registry_ABC @ [c]"
    by blast
  ultimately show ?thesis
    using h ok unfolding reg by simp
qed


end
